theory Spec2Isabelle
  imports Complex_Main "HOL-Library.Word" "HOL-Library.Log_Nat"
begin

section \<open>The yarlang runtime value model (src/runtime/value.h, src/runtime/value.c)\<close>

text \<open>
  The runtime boxes every datum of the language in a \<^verbatim>\<open>struct Value\<close>: a type tag and a
  union holding the payload of the active variant. Values are allocated on a
  garbage-collected heap and never written after their constructor returns, so the
  embedding passes them by value: a pointer \<^verbatim>\<open>Value*\<close> is the value it points to, and two
  references to one object are two occurrences of the same term. Allocation is taken
  to succeed.
\<close>

subsection \<open>C's \<^verbatim>\<open>double\<close>: IEEE-754 binary64\<close>

text \<open>
  A \<^verbatim>\<open>double\<close> is a NaN, a signed infinity, or a sign and a magnitude. The magnitude of a
  finite double is an exact rational (zero has a sign of its own). The sign is \<open>True\<close>
  for negative. A NaN's sign and payload are not represented.
\<close>

datatype double = Finite bool rat | Infinity bool | NaN

text \<open>
  Every arithmetic operation computes the exact result and rounds it to the nearest
  double, ties to the even significand (the default rounding mode; the runtime never
  changes it). \<open>idigits b n\<close> is the number of digits of \<open>n\<close> in base \<open>b\<close>, and
  \<open>ilog b a\<close> the integer part of the logarithm of a positive rational:
  \<open>b ^ ilog b a \<le> a < b ^ (ilog b a + 1)\<close>.
\<close>

function idigits :: "int \<Rightarrow> int \<Rightarrow> int" where
  "idigits b n = (if 0 < n \<and> 1 < b then idigits b (n div b) + 1 else 0)"
  by pat_completeness auto
termination
  by (relation "measure (\<lambda>(b, n). nat n)") (auto simp: int_div_less_self)

declare idigits.simps [simp del]

definition ilog :: "int \<Rightarrow> rat \<Rightarrow> int" where
  "ilog b a =
     (if 1 \<le> a then idigits b \<lfloor>a\<rfloor> - 1
      else - idigits b (\<lceil>1 / a\<rceil> - 1))"

definition round_half_even :: "rat \<Rightarrow> int" where
  "round_half_even x =
     (let f = \<lfloor>x\<rfloor>; d = x - of_int f
      in if d < 1 / 2 then f
         else if 1 / 2 < d then f + 1
         else if even f then f else f + 1)"

text \<open>
  \<open>ipow b e\<close> is \<open>b\<close> to the power of the integer \<open>e\<close>.
  \<open>round_to_double s a\<close> rounds the exact magnitude \<open>a \<ge> 0\<close> with sign \<open>s\<close>: the spacing
  of the doubles around \<open>a\<close> is \<open>2 ^ (ilog 2 a - 52)\<close> for a normal number and
  \<open>2 ^ -1074\<close> for a subnormal one; a result of \<open>2 ^ 1024\<close> or more overflows to infinity.
\<close>

definition ipow :: "int \<Rightarrow> int \<Rightarrow> rat" where
  "ipow b e = (if 0 \<le> e then of_int (b ^ nat e) else 1 / of_int (b ^ nat (- e)))"

definition round_to_double :: "bool \<Rightarrow> rat \<Rightarrow> double" where
  "round_to_double s a =
     (if a = 0 then Finite s 0
      else
        let q = max (ilog 2 a - 52) (- 1074);
            m = of_int (round_half_even (a / ipow 2 q)) * ipow 2 q
        in if of_int (2 ^ 1024) \<le> m then Infinity s else Finite s m)"

text \<open>The doubles among the terms of the type: the roundings of themselves.\<close>

definition is_double :: "double \<Rightarrow> bool" where
  "is_double d =
     (case d of Finite s a \<Rightarrow> 0 \<le> a \<and> round_to_double s a = Finite s a | _ \<Rightarrow> True)"

text \<open>The signed value of a finite double.\<close>

definition signed :: "bool \<Rightarrow> rat \<Rightarrow> rat" where
  "signed s a = (if s then - a else a)"

text \<open>
  \<^verbatim>\<open>x + y\<close>. An exact sum of zero is \<open>+0\<close>, unless both operands are negative (zeros).
\<close>

fun dadd :: "double \<Rightarrow> double \<Rightarrow> double" where
  "dadd NaN y = NaN"
| "dadd x NaN = NaN"
| "dadd (Infinity s) (Infinity t) = (if s = t then Infinity s else NaN)"
| "dadd (Infinity s) (Finite t b) = Infinity s"
| "dadd (Finite s a) (Infinity t) = Infinity t"
| "dadd (Finite s a) (Finite t b) =
     (let r = signed s a + signed t b
      in if r = 0 then Finite (s \<and> t) 0 else round_to_double (r < 0) \<bar>r\<bar>)"

text \<open>\<^verbatim>\<open>x / y\<close>. The sign of the quotient is the exclusive or of the signs.\<close>

fun ddiv :: "double \<Rightarrow> double \<Rightarrow> double" where
  "ddiv NaN y = NaN"
| "ddiv x NaN = NaN"
| "ddiv (Infinity s) (Infinity t) = NaN"
| "ddiv (Infinity s) (Finite t b) = Infinity (s \<noteq> t)"
| "ddiv (Finite s a) (Infinity t) = Finite (s \<noteq> t) 0"
| "ddiv (Finite s a) (Finite t b) =
     (if b = 0 then (if a = 0 then NaN else Infinity (s \<noteq> t))
      else round_to_double (s \<noteq> t) (a / b))"

text \<open>\<^verbatim>\<open>x == y\<close>: a NaN equals nothing, and the two zeros are equal.\<close>

fun deq :: "double \<Rightarrow> double \<Rightarrow> bool" where
  "deq (Finite s a) (Finite t b) = (a = b \<and> (s = t \<or> a = 0))"
| "deq (Infinity s) (Infinity t) = (s = t)"
| "deq x y = False"

text \<open>
  \<^verbatim>\<open>long\<close> is a 64-bit two's complement integer (the LP64 data model). The conversion
  \<^verbatim>\<open>(long)x\<close> discards the fractional part; its behaviour is undefined when the integral
  part is not a \<^verbatim>\<open>long\<close> (C99 6.3.1.4), and for a NaN or an infinity.
\<close>

definition LONG_MIN :: int where "LONG_MIN = - (2 ^ 63)"
definition LONG_MAX :: int where "LONG_MAX = 2 ^ 63 - 1"

definition double_to_long :: "double \<Rightarrow> int option" where
  "double_to_long d =
     (case d of
        Finite s a \<Rightarrow>
          (let n = (if s then - \<lfloor>a\<rfloor> else \<lfloor>a\<rfloor>)
           in if LONG_MIN \<le> n \<and> n \<le> LONG_MAX then Some n else None)
      | Infinity s \<Rightarrow> None
      | NaN \<Rightarrow> None)"

text \<open>
  \<^verbatim>\<open>a % b\<close> on \<^verbatim>\<open>long\<close>, for \<open>b \<noteq> 0\<close>: the quotient truncates toward zero and
  \<open>(a / b) * b + a % b = a\<close> (C99 6.5.5), so the remainder has the sign of \<open>a\<close>.
\<close>

definition long_rem :: "int \<Rightarrow> int \<Rightarrow> int" where
  "long_rem a b = a - sgn a * sgn b * (\<bar>a\<bar> div \<bar>b\<bar>) * b"

text \<open>\<^verbatim>\<open>(double)n\<close> for a \<^verbatim>\<open>long\<close> and for a \<^verbatim>\<open>size_t\<close>: the nearest double.\<close>

definition long_to_double :: "int \<Rightarrow> double" where
  "long_to_double n = round_to_double (n < 0) (of_int \<bar>n\<bar>)"

definition size_to_double :: "nat \<Rightarrow> double" where
  "size_to_double n = round_to_double False (of_nat n)"

subsection \<open>Values\<close>

text \<open>
  \<^verbatim>\<open>enum ValueType\<close> is an integer type of C; the five tags are the integers 0 to 4, and a
  \<^verbatim>\<open>switch\<close> over a tag has a \<^verbatim>\<open>default\<close> branch for every other integer.
\<close>

type_synonym ValueType = int

definition VAL_NIL :: ValueType where "VAL_NIL = 0"
definition VAL_BOOL :: ValueType where "VAL_BOOL = 1"
definition VAL_NUMBER :: ValueType where "VAL_NUMBER = 2"
definition VAL_STRING :: ValueType where "VAL_STRING = 3"
definition VAL_FUNCTION :: ValueType where "VAL_FUNCTION = 4"

text \<open>
  \<^verbatim>\<open>struct FunctionValue\<close>: the entry address, the calling convention and the declared
  parameter count (an \<^verbatim>\<open>int\<close>: 32 bits, read in two's complement by \<open>sint\<close>).
\<close>

record FunctionValue =
  ptr :: "64 word"
  is_native :: bool
  arity :: "32 word"

text \<open>
  \<^verbatim>\<open>struct Value\<close> is a tagged union, hence a datatype; the selectors are the members of the
  union \<^verbatim>\<open>as\<close>. A string payload is a C string: the bytes before the terminating NUL.
\<close>

datatype Value =
    VNil
  | VBool (as_boolean: bool)
  | VNumber (as_number: double)
  | VString (as_string: string)
  | VFunction (as_function: FunctionValue)

text \<open>The member \<^verbatim>\<open>type\<close> of a value.\<close>

fun vtype :: "Value \<Rightarrow> ValueType" where
  "vtype VNil = VAL_NIL"
| "vtype (VBool b) = VAL_BOOL"
| "vtype (VNumber d) = VAL_NUMBER"
| "vtype (VString s) = VAL_STRING"
| "vtype (VFunction f) = VAL_FUNCTION"

subsection \<open>Constructors\<close>

definition yar_nil :: Value where
  "yar_nil = VNil"

definition yar_bool :: "bool \<Rightarrow> Value" where
  "yar_bool b = VBool b"

definition yar_number :: "double \<Rightarrow> Value" where
  "yar_number d = VNumber d"

text \<open>
  A C string is represented by its content, the bytes before the terminating NUL, which
  therefore hold no NUL themselves: \<^verbatim>\<open>strlen\<close> is the length of the content and
  \<^verbatim>\<open>strcpy\<close> yields a copy of it. \<^verbatim>\<open>yar_string\<close> allocates \<^verbatim>\<open>strlen(str) + 1\<close> bytes and
  copies its argument there.
\<close>

definition strlen :: "string \<Rightarrow> nat" where
  "strlen s = length s"

definition strcpy :: "string \<Rightarrow> string" where
  "strcpy src = src"

definition yar_string :: "string \<Rightarrow> Value" where
  "yar_string str = VString (strcpy str)"

definition yar_function :: "64 word \<Rightarrow> bool \<Rightarrow> 32 word \<Rightarrow> Value" where
  "yar_function p n a = VFunction \<lparr>ptr = p, is_native = n, arity = a\<rparr>"

subsection \<open>Type checks and truthiness\<close>

definition yar_is_nil :: "Value \<Rightarrow> bool" where
  "yar_is_nil v = (vtype v = VAL_NIL)"

definition yar_is_bool :: "Value \<Rightarrow> bool" where
  "yar_is_bool v = (vtype v = VAL_BOOL)"

definition yar_is_number :: "Value \<Rightarrow> bool" where
  "yar_is_number v = (vtype v = VAL_NUMBER)"

definition yar_is_string :: "Value \<Rightarrow> bool" where
  "yar_is_string v = (vtype v = VAL_STRING)"

definition yar_is_function :: "Value \<Rightarrow> bool" where
  "yar_is_function v = (vtype v = VAL_FUNCTION)"

definition yar_is_truthy :: "Value \<Rightarrow> bool" where
  "yar_is_truthy v =
     (if yar_is_nil v then False
      else if yar_is_bool v then as_boolean v
      else True)"

text \<open>
  \<^verbatim>\<open>yar_type_name\<close> switches over the tag; \<open>type_name_of_tag\<close> is that switch, on any
  integer a tag field can hold.
\<close>

definition type_name_of_tag :: "ValueType \<Rightarrow> string" where
  "type_name_of_tag t =
     (if t = VAL_NIL then ''nil''
      else if t = VAL_BOOL then ''bool''
      else if t = VAL_NUMBER then ''number''
      else if t = VAL_STRING then ''string''
      else if t = VAL_FUNCTION then ''function''
      else ''unknown'')"

definition yar_type_name :: "Value \<Rightarrow> string" where
  "yar_type_name v = type_name_of_tag (vtype v)"

definition yar_type :: "Value \<Rightarrow> Value" where
  "yar_type v = yar_string (yar_type_name v)"

subsection \<open>The error channel\<close>

text \<open>
  \<^verbatim>\<open>yar_error\<close> writes \<^verbatim>\<open>Runtime error: \<close>, the formatted message and a newline to the
  error stream, then calls \<^verbatim>\<open>exit(1)\<close>: it never returns, so the statement after each
  call of it is never reached. A run that ends there is the failure \<open>Terminated\<close> with
  the text written and the exit status. The embedding passes \<^verbatim>\<open>yar_error\<close> the message
  with its \<^verbatim>\<open>%s\<close> directives already replaced by their arguments.

  The other way an operator does not return a value is undefined behaviour of C
  itself, which the runtime does not guard against everywhere.
\<close>

datatype undefined_behaviour =
    Conversion_Out_Of_Range
  | Remainder_By_Zero
  | Remainder_Overflow

datatype failure =
    Terminated (stderr_text: string) (exit_status: int)
  | Undefined undefined_behaviour

definition yar_error :: "string \<Rightarrow> failure" where
  "yar_error msg = Terminated (''Runtime error: '' @ msg @ [CHR 0x0A]) 1"

subsection \<open>Operators\<close>

text \<open>
  \<^verbatim>\<open>strcat\<close> appends, and \<^verbatim>\<open>strcmp\<close> compares the contents bytewise as \<^verbatim>\<open>unsigned char\<close>;
  of its result C fixes the sign only. A proper prefix is less: its terminator is the
  smaller byte.
\<close>

definition strcat :: "string \<Rightarrow> string \<Rightarrow> string" where
  "strcat dst src = dst @ src"

fun strcmp :: "string \<Rightarrow> string \<Rightarrow> int" where
  "strcmp [] [] = 0"
| "strcmp [] (y # ys) = - 1"
| "strcmp (x # xs) [] = 1"
| "strcmp (x # xs) (y # ys) =
     (if x = y then strcmp xs ys
      else if (of_char x :: nat) < of_char y then - 1 else 1)"

definition yar_add :: "Value \<Rightarrow> Value \<Rightarrow> failure + Value" where
  "yar_add a b =
     (if yar_is_number a \<and> yar_is_number b then
        Inr (yar_number (dadd (as_number a) (as_number b)))
      else if yar_is_string a \<and> yar_is_string b then
        Inr (VString (strcat (strcpy (as_string a)) (as_string b)))
      else
        Inl (yar_error (''Cannot add '' @ yar_type_name a @ '' and '' @ yar_type_name b)))"

definition yar_divide :: "Value \<Rightarrow> Value \<Rightarrow> failure + Value" where
  "yar_divide a b =
     (if yar_is_number a \<and> yar_is_number b then
        (if deq (as_number b) (Finite False 0) then Inl (yar_error ''Division by zero'')
         else Inr (yar_number (ddiv (as_number a) (as_number b))))
      else
        Inl (yar_error (''Cannot divide '' @ yar_type_name a @ '' and '' @ yar_type_name b)))"

text \<open>
  \<^verbatim>\<open>yar_modulo\<close> converts both numbers to \<^verbatim>\<open>long\<close> and takes the remainder, with no check
  of its own. The remainder is undefined for a zero divisor and for
  \<^verbatim>\<open>LONG_MIN % -1\<close>, whose quotient is not a \<^verbatim>\<open>long\<close>.
\<close>

definition yar_modulo :: "Value \<Rightarrow> Value \<Rightarrow> failure + Value" where
  "yar_modulo a b =
     (if yar_is_number a \<and> yar_is_number b then
        (case (double_to_long (as_number a), double_to_long (as_number b)) of
           (Some x, Some y) \<Rightarrow>
             if y = 0 then Inl (Undefined Remainder_By_Zero)
             else if x = LONG_MIN \<and> y = - 1 then Inl (Undefined Remainder_Overflow)
             else Inr (yar_number (long_to_double (long_rem x y)))
         | _ \<Rightarrow> Inl (Undefined Conversion_Out_Of_Range))
      else
        Inl (yar_error (''Cannot modulo '' @ yar_type_name a @ '' and '' @ yar_type_name b)))"

definition yar_eq :: "Value \<Rightarrow> Value \<Rightarrow> Value" where
  "yar_eq a b =
     (if vtype a \<noteq> vtype b then yar_bool False
      else
        (case a of
           VNil \<Rightarrow> yar_bool True
         | VBool x \<Rightarrow> yar_bool (x = as_boolean b)
         | VNumber x \<Rightarrow> yar_bool (deq x (as_number b))
         | VString x \<Rightarrow> yar_bool (strcmp x (as_string b) = 0)
         | VFunction x \<Rightarrow> yar_bool False))"

definition yar_neq :: "Value \<Rightarrow> Value \<Rightarrow> Value" where
  "yar_neq a b = (let eq = yar_eq a b in yar_bool (\<not> as_boolean eq))"

subsection \<open>Built-in functions\<close>

text \<open>
  \<^verbatim>\<open>printf("%g", x)\<close> (C99 7.19.6.1, precision 6). Let \<open>X\<close> be the decimal exponent of \<open>x\<close>
  once rounded to six significant digits. For \<open>-4 \<le> X < 6\<close> the number is written in
  fixed notation with \<open>5 - X\<close> digits after the point, otherwise as one digit, the
  point, five digits and the exponent (a sign and at least two digits). Trailing zeros
  of the fraction are removed, and the point with them when no digit is left. The
  rounding to six digits is to nearest, ties to even, on the exact value. An infinity
  is written \<^verbatim>\<open>inf\<close>. A NaN is written \<^verbatim>\<open>nan\<close>, or \<^verbatim>\<open>-nan\<close> when its sign bit is set (as
  it is in the NaN an x86-64 processor yields for the sum of two opposite infinities);
  the type \<open>double\<close> does not represent that bit, so \<open>fmt_g x\<close> is the set of the texts
  the conversion can write for \<open>x\<close>: one text for a number, and both for a NaN.

  \<open>digits k n\<close> are the last \<open>k\<close> decimal digits of \<open>n\<close>.
\<close>

definition digit_char :: "int \<Rightarrow> char" where
  "digit_char d = char_of (48 + d)"

fun digits :: "nat \<Rightarrow> int \<Rightarrow> string" where
  "digits 0 n = []"
| "digits (Suc k) n = digits k (n div 10) @ [digit_char (n mod 10)]"

definition strip_zeros :: "string \<Rightarrow> string" where
  "strip_zeros s = rev (dropWhile (\<lambda>c. c = CHR ''0'') (rev s))"

definition with_fraction :: "string \<Rightarrow> string \<Rightarrow> string" where
  "with_fraction ip fp = (let f = strip_zeros fp in if f = [] then ip else ip @ ''.'' @ f)"

definition exponent_text :: "int \<Rightarrow> string" where
  "exponent_text X =
     (if X < 0 then ''-'' else ''+'') @ digits (nat (max 2 (idigits 10 \<bar>X\<bar>))) \<bar>X\<bar>"

definition fmt_g_magnitude :: "rat \<Rightarrow> string" where
  "fmt_g_magnitude a =
     (if a = 0 then ''0''
      else
        let e = ilog 10 a;
            d = round_half_even (a / ipow 10 (e - 5));
            X = (if d = 1000000 then e + 1 else e);
            ds = digits 6 (if d = 1000000 then 100000 else d)
        in if - 4 \<le> X \<and> X < 6 then
             (if 0 \<le> X then with_fraction (take (nat X + 1) ds) (drop (nat X + 1) ds)
              else with_fraction ''0'' (replicate (nat (- X - 1)) (CHR ''0'') @ ds))
           else with_fraction (take 1 ds) (drop 1 ds) @ ''e'' @ exponent_text X)"

definition fmt_g :: "double \<Rightarrow> string set" where
  "fmt_g x =
     (case x of
        Finite s a \<Rightarrow> {(if s then ''-'' else []) @ fmt_g_magnitude a}
      | Infinity s \<Rightarrow> {(if s then ''-'' else []) @ ''inf''}
      | NaN \<Rightarrow> {''nan'', ''-nan''})"

text \<open>
  \<^verbatim>\<open>yar_print\<close> appends to the standard output stream: the embedding passes the stream
  in and returns the set of the streams the call can leave, a single one unless the
  value is a NaN.
\<close>

definition yar_print :: "Value \<Rightarrow> string \<Rightarrow> string set" where
  "yar_print v out =
     (case v of
        VNil \<Rightarrow> {out @ ''nil''}
      | VBool b \<Rightarrow> {out @ (if b then ''true'' else ''false'')}
      | VNumber x \<Rightarrow> (\<lambda>t. out @ t) ` fmt_g x
      | VString s \<Rightarrow> {out @ s}
      | VFunction f \<Rightarrow> {out @ ''<function>''})"

definition yar_println :: "Value \<Rightarrow> string \<Rightarrow> string set" where
  "yar_println v out = (\<lambda>t. t @ [CHR 0x0A]) ` yar_print v out"

definition yar_len :: "Value \<Rightarrow> failure + Value" where
  "yar_len v =
     (if yar_is_string v then Inr (yar_number (size_to_double (strlen (as_string v))))
      else Inl (yar_error (''len() requires string, got '' @ yar_type_name v)))"

section \<open>Properties\<close>

lemmas tag_defs = VAL_NIL_def VAL_BOOL_def VAL_NUMBER_def VAL_STRING_def VAL_FUNCTION_def

lemmas is_defs =
  yar_is_nil_def yar_is_bool_def yar_is_number_def yar_is_string_def yar_is_function_def

lemmas ctor_defs =
  yar_nil_def yar_bool_def yar_number_def yar_string_def strcpy_def yar_function_def

subsection \<open>Truthiness and type names\<close>

text \<open>
  C1. Truthiness follows one rule: nil is false, a bool yields its payload, and every
  other value is true, the number zero (of either sign), the empty string and every
  function included.
\<close>

theorem C1_truthy:
  "yar_is_truthy v =
     (case v of VNil \<Rightarrow> False | VBool b \<Rightarrow> b | VNumber d \<Rightarrow> True
      | VString s \<Rightarrow> True | VFunction f \<Rightarrow> True)
   \<and> yar_is_truthy yar_nil = False
   \<and> yar_is_truthy (yar_bool b) = b
   \<and> yar_is_truthy (yar_number (Finite False 0)) = True
   \<and> yar_is_truthy (yar_number (Finite True 0)) = True
   \<and> yar_is_truthy (yar_string []) = True
   \<and> yar_is_truthy (yar_function p n a) = True"
  by (cases v) (simp_all add: yar_is_truthy_def is_defs tag_defs ctor_defs)

theorem C1_truthy_witness:
  "yar_is_truthy (VNumber (Finite False 0)) = True \<and> yar_is_truthy (yar_bool False) = False"
  using C1_truthy [of "VNumber (Finite False 0)" False] by simp

text \<open>
  C7. The type name of a constructed value is the fixed label of its variant, and
  every tag outside the five maps to \<open>unknown\<close>; \<^verbatim>\<open>yar_type\<close> returns a string holding
  that label; and of the five predicates exactly the one of the variant holds (the
  lists give \<^verbatim>\<open>yar_is_nil\<close>, \<^verbatim>\<open>yar_is_bool\<close>, \<^verbatim>\<open>yar_is_number\<close>, \<^verbatim>\<open>yar_is_string\<close>,
  \<^verbatim>\<open>yar_is_function\<close> in this order).
\<close>

theorem C7_type_name:
  "yar_type_name yar_nil = ''nil''
   \<and> yar_type_name (yar_bool b) = ''bool''
   \<and> yar_type_name (yar_number d) = ''number''
   \<and> yar_type_name (yar_string s) = ''string''
   \<and> yar_type_name (yar_function p n a) = ''function''
   \<and> (t < 0 \<or> 4 < t \<longrightarrow> type_name_of_tag t = ''unknown'')
   \<and> yar_type v = VString (yar_type_name v)
   \<and> as_string (yar_type yar_nil) = ''nil''
   \<and> as_string (yar_type (yar_bool b)) = ''bool''
   \<and> as_string (yar_type (yar_number d)) = ''number''
   \<and> as_string (yar_type (yar_string s)) = ''string''
   \<and> as_string (yar_type (yar_function p n a)) = ''function''
   \<and> [yar_is_nil yar_nil, yar_is_bool yar_nil, yar_is_number yar_nil,
      yar_is_string yar_nil, yar_is_function yar_nil] =
       [True, False, False, False, False]
   \<and> [yar_is_nil (yar_bool b), yar_is_bool (yar_bool b), yar_is_number (yar_bool b),
      yar_is_string (yar_bool b), yar_is_function (yar_bool b)] =
       [False, True, False, False, False]
   \<and> [yar_is_nil (yar_number d), yar_is_bool (yar_number d), yar_is_number (yar_number d),
      yar_is_string (yar_number d), yar_is_function (yar_number d)] =
       [False, False, True, False, False]
   \<and> [yar_is_nil (yar_string s), yar_is_bool (yar_string s), yar_is_number (yar_string s),
      yar_is_string (yar_string s), yar_is_function (yar_string s)] =
       [False, False, False, True, False]
   \<and> [yar_is_nil (yar_function p n a), yar_is_bool (yar_function p n a), yar_is_number (yar_function p n a),
      yar_is_string (yar_function p n a), yar_is_function (yar_function p n a)] =
       [False, False, False, False, True]"
  by (simp add: yar_type_name_def type_name_of_tag_def yar_type_def
      is_defs tag_defs ctor_defs)

theorem C7_type_name_witness:
  "type_name_of_tag 5 = ''unknown'' \<and> yar_type_name (yar_bool True) = ''bool''
   \<and> yar_type (VNumber NaN) = VString ''number''
   \<and> [yar_is_nil (yar_string ''ab''), yar_is_bool (yar_string ''ab''), yar_is_number (yar_string ''ab''),
      yar_is_string (yar_string ''ab''), yar_is_function (yar_string ''ab'')] =
       [False, False, False, True, False]"
  using C7_type_name [of True NaN "''ab''" 0 False 0 5 "VNumber NaN"]
  by (simp add: yar_type_name_def type_name_of_tag_def tag_defs)

subsection \<open>Equality\<close>

lemma strcmp_eq_0_iff: "strcmp s t = 0 \<longleftrightarrow> s = t"
  by (induction s t rule: strcmp.induct) auto

lemma deq_sym: "deq x y = deq y x"
  by (cases x; cases y) auto

lemma deq_refl_iff: "deq x x \<longleftrightarrow> x \<noteq> NaN"
  by (cases x) auto

lemma yar_eq_is_bool: "\<exists>t. yar_eq a b = VBool t"
  by (cases a) (auto simp: yar_eq_def yar_bool_def)

lemma yar_eq_sym: "yar_eq a b = yar_eq b a"
proof (cases "vtype a = vtype b")
  case False
  then show ?thesis by (simp add: yar_eq_def)
next
  case True
  then show ?thesis
    by (cases a; cases b)
       (auto simp: yar_eq_def yar_bool_def tag_defs strcmp_eq_0_iff deq_sym)
qed

text \<open>
  C2. \<^verbatim>\<open>yar_eq\<close> always returns a bool value: false when the tags differ; true for two
  nils; the comparison of the payloads for two bools; IEEE \<^verbatim>\<open>==\<close> for two numbers, so
  false whenever one is a NaN; equality of the contents for two strings; and false for
  two functions, also for one function compared with itself.
\<close>

theorem C2_eq:
  "(vtype a \<noteq> vtype b \<longrightarrow> yar_eq a b = VBool False)
   \<and> yar_eq VNil VNil = VBool True
   \<and> yar_eq (VBool x) (VBool y) = VBool (x = y)
   \<and> yar_eq (VNumber d) (VNumber e) = VBool (deq d e)
   \<and> yar_eq (VNumber NaN) (VNumber e) = VBool False
   \<and> yar_eq (VNumber d) (VNumber NaN) = VBool False
   \<and> yar_eq (VString s) (VString t) = VBool (s = t)
   \<and> yar_eq (VFunction f) (VFunction g) = VBool False
   \<and> yar_eq (VFunction f) (VFunction f) = VBool False"
  by (simp add: yar_eq_def yar_bool_def strcmp_eq_0_iff)

theorem C2_eq_witness:
  "vtype (VNumber (Finite False 1)) \<noteq> vtype (VString ''1'')
   \<and> yar_eq (VNumber (Finite False 1)) (VString ''1'') = VBool False
   \<and> yar_eq (VBool True) (VBool False) = VBool False
   \<and> yar_eq (VNumber (Finite False 0)) (VNumber (Finite True 0)) = VBool True
   \<and> yar_eq (VString ''ab'') (VString ''ab'') = VBool True
   \<and> yar_eq (VString ''ab'') (VString ''abc'') = VBool False"
  using C2_eq [of "VNumber (Finite False 1)" "VString ''1''" True False
      "Finite False 0" "Finite True 0" "''ab''" "''ab''"]
    C2_eq [of VNil VNil True False NaN NaN "''ab''" "''abc''"]
  by (simp add: tag_defs)

text \<open>
  C8. Equality is reflexive on nil, bools, strings and every number but NaN, which is
  unequal to itself; it is symmetric on all values; two functions are never equal; and
  \<^verbatim>\<open>yar_neq\<close> returns the negation of the bool \<^verbatim>\<open>yar_eq\<close> returns.
\<close>

theorem C8_eq_laws:
  "yar_eq VNil VNil = VBool True
   \<and> yar_eq (VBool x) (VBool x) = VBool True
   \<and> yar_eq (VString s) (VString s) = VBool True
   \<and> (d \<noteq> NaN \<longrightarrow> yar_eq (VNumber d) (VNumber d) = VBool True)
   \<and> yar_eq (VNumber NaN) (VNumber NaN) = VBool False
   \<and> yar_eq a b = yar_eq b a
   \<and> yar_eq (VFunction f) (VFunction g) = VBool False
   \<and> (\<exists>t. yar_eq a b = VBool t \<and> yar_neq a b = VBool (\<not> t))"
proof -
  obtain t where t: "yar_eq a b = VBool t"
    using yar_eq_is_bool by blast
  then have "yar_neq a b = VBool (\<not> t)"
    by (simp add: yar_neq_def yar_bool_def)
  with t have neq: "\<exists>t. yar_eq a b = VBool t \<and> yar_neq a b = VBool (\<not> t)"
    by blast
  have refl: "yar_eq VNil VNil = VBool True" "yar_eq (VBool x) (VBool x) = VBool True"
    "yar_eq (VString s) (VString s) = VBool True"
    "d \<noteq> NaN \<longrightarrow> yar_eq (VNumber d) (VNumber d) = VBool True"
    "yar_eq (VNumber NaN) (VNumber NaN) = VBool False"
    "yar_eq (VFunction f) (VFunction g) = VBool False"
    by (simp_all add: yar_eq_def yar_bool_def strcmp_eq_0_iff deq_refl_iff)
  from refl neq yar_eq_sym [of a b] show ?thesis
    by blast
qed

theorem C8_eq_laws_witness:
  "Finite True (5 / 2) \<noteq> NaN
   \<and> yar_eq (VNumber (Finite True (5 / 2))) (VNumber (Finite True (5 / 2))) = VBool True
   \<and> yar_eq (VString ''a'') (VNumber NaN) = yar_eq (VNumber NaN) (VString ''a'')
   \<and> yar_neq (VString ''a'') (VNumber NaN) = VBool True"
  using C8_eq_laws [of True "''a''" "Finite True (5 / 2)" "VString ''a''" "VNumber NaN"]
  by (auto simp: yar_eq_def yar_bool_def tag_defs)

subsection \<open>Addition and division\<close>

text \<open>
  C3. \<^verbatim>\<open>yar_add\<close> returns the IEEE sum of two numbers and the concatenation of two
  strings; for every other pair of operands it ends in \<^verbatim>\<open>yar_error\<close> with a message that
  cites the type names of both. So 2 + 3 is 5, \<open>ab\<close> + \<open>cd\<close> is \<open>abcd\<close>, and a number
  plus a string terminates the process with status 1.
\<close>

theorem C3_add:
  "yar_add (VNumber x) (VNumber y) = Inr (VNumber (dadd x y))
   \<and> yar_add (VString s) (VString t) = Inr (VString (s @ t))
   \<and> (\<not> (yar_is_number a \<and> yar_is_number b) \<and> \<not> (yar_is_string a \<and> yar_is_string b) \<longrightarrow>
        yar_add a b =
          Inl (yar_error (''Cannot add '' @ yar_type_name a @ '' and '' @ yar_type_name b)))
   \<and> yar_add (VNumber (Finite False 2)) (VNumber (Finite False 3)) =
        Inr (VNumber (Finite False 5))
   \<and> yar_add (VString ''ab'') (VString ''cd'') = Inr (VString ''abcd'')
   \<and> yar_add (VNumber (Finite False 1)) (VString ''x'') =
        Inl (Terminated (''Runtime error: Cannot add number and string'' @ [CHR 0x0A]) 1)"
proof -
  have sum: "dadd (Finite False 2) (Finite False 3) = Finite False 5"
    by code_simp
  have num: "yar_add (VNumber x) (VNumber y) = Inr (VNumber (dadd x y))" for x y
    by (simp add: yar_add_def is_defs yar_number_def)
  have str: "yar_add (VString s) (VString t) = Inr (VString (s @ t))" for s t
    by (simp add: yar_add_def is_defs tag_defs strcat_def strcpy_def)
  have err: "\<not> (yar_is_number a \<and> yar_is_number b) \<and> \<not> (yar_is_string a \<and> yar_is_string b) \<longrightarrow>
      yar_add a b =
        Inl (yar_error (''Cannot add '' @ yar_type_name a @ '' and '' @ yar_type_name b))"
    by (simp add: yar_add_def)
  have mixed: "yar_add (VNumber (Finite False 1)) (VString ''x'') =
      Inl (Terminated (''Runtime error: Cannot add number and string'' @ [CHR 0x0A]) 1)"
    by (simp add: yar_add_def is_defs tag_defs yar_error_def yar_type_name_def
        type_name_of_tag_def)
  from num [of x y] str [of s t] err mixed num [of "Finite False 2" "Finite False 3"]
    str [of "''ab''" "''cd''"] sum
  show ?thesis by simp
qed

theorem C3_add_witness:
  "\<not> (yar_is_number VNil \<and> yar_is_number (VBool True))
   \<and> \<not> (yar_is_string VNil \<and> yar_is_string (VBool True))
   \<and> yar_add VNil (VBool True) =
        Inl (Terminated (''Runtime error: Cannot add nil and bool'' @ [CHR 0x0A]) 1)"
  using C3_add [of NaN NaN "[]" "[]" VNil "VBool True"]
  by (simp add: is_defs tag_defs yar_error_def yar_type_name_def type_name_of_tag_def)

text \<open>
  C4. \<^verbatim>\<open>yar_divide\<close> on two numbers tests the divisor against zero first: a divisor equal
  to zero (of either sign) ends in \<^verbatim>\<open>yar_error\<close> with the message \<open>Division by zero\<close>,
  which terminates the process with status 1, and no quotient is computed; for any
  other divisor the result is the IEEE quotient.
\<close>

theorem C4_divide:
  "(deq y (Finite False 0) \<longrightarrow>
      yar_divide (VNumber x) (VNumber y) = Inl (yar_error ''Division by zero''))
   \<and> (deq y (Finite False 0) \<longleftrightarrow> y = Finite False 0 \<or> y = Finite True 0)
   \<and> yar_error ''Division by zero'' =
        Terminated (''Runtime error: Division by zero'' @ [CHR 0x0A]) 1
   \<and> exit_status (yar_error ''Division by zero'') \<noteq> 0
   \<and> (\<not> deq y (Finite False 0) \<longrightarrow>
        yar_divide (VNumber x) (VNumber y) = Inr (VNumber (ddiv x y)))
   \<and> yar_divide (VNumber (Finite False 10)) (VNumber (Finite False 0)) =
        Inl (Terminated (''Runtime error: Division by zero'' @ [CHR 0x0A]) 1)"
proof -
  have zero: "deq y (Finite False 0) \<longleftrightarrow> y = Finite False 0 \<or> y = Finite True 0"
    by (cases y) auto
  have rest: "(deq y (Finite False 0) \<longrightarrow>
      yar_divide (VNumber x) (VNumber y) = Inl (yar_error ''Division by zero''))
   \<and> yar_error ''Division by zero'' =
        Terminated (''Runtime error: Division by zero'' @ [CHR 0x0A]) 1
   \<and> exit_status (yar_error ''Division by zero'') \<noteq> 0
   \<and> (\<not> deq y (Finite False 0) \<longrightarrow>
        yar_divide (VNumber x) (VNumber y) = Inr (VNumber (ddiv x y)))
   \<and> yar_divide (VNumber (Finite False 10)) (VNumber (Finite False 0)) =
        Inl (Terminated (''Runtime error: Division by zero'' @ [CHR 0x0A]) 1)"
    by (simp add: yar_divide_def is_defs yar_number_def yar_error_def)
  from zero rest show ?thesis
    by blast
qed

theorem C4_divide_witness:
  "deq (Finite True 0) (Finite False 0)
   \<and> yar_divide (VNumber (Finite False 1)) (VNumber (Finite True 0)) =
        Inl (Terminated (''Runtime error: Division by zero'' @ [CHR 0x0A]) 1)
   \<and> \<not> deq (Finite True 4) (Finite False 0)
   \<and> yar_divide (VNumber (Finite False 1)) (VNumber (Finite True 4)) =
        Inr (VNumber (Finite True (1 / 4)))"
proof -
  have q: "ddiv (Finite False 1) (Finite True 4) = Finite True (1 / 4)"
    by code_simp
  show ?thesis
    using C4_divide [of "Finite True 0" "Finite False 1"]
      C4_divide [of "Finite True 4" "Finite False 1"] q
    by (simp add: yar_error_def)
qed

subsection \<open>Conversions between integers and doubles\<close>

text \<open>
  The digit count and the integer logarithm meet their specifications, in base 2 for the
  rounding and in base 10 for the printing.
\<close>

lemma idigits_step: "0 < n \<Longrightarrow> 1 < b \<Longrightarrow> idigits b n = idigits b (n div b) + 1"
  by (subst idigits.simps) simp

lemma idigits_nonpos: "n \<le> 0 \<Longrightarrow> idigits b n = 0"
  by (subst idigits.simps) simp

lemma idigits_bounds:
  "1 < b \<Longrightarrow> 0 < n \<Longrightarrow>
     1 \<le> idigits b n \<and> b ^ nat (idigits b n - 1) \<le> n \<and> n < b ^ nat (idigits b n)"
proof (induction b n rule: idigits.induct)
  case (1 b n)
  then have b: "1 < b" and n: "0 < n" by simp_all
  have step: "idigits b n = idigits b (n div b) + 1"
    using n b by (rule idigits_step)
  show ?case
  proof (cases "0 < n div b")
    case False
    with b have "n < b"
      using pos_imp_zdiv_pos_iff [of b n] by simp
    moreover have "idigits b 0 = 0" by (rule idigits_nonpos) simp
    ultimately show ?thesis using n by (simp add: step)
  next
    case True
    with 1 b have ih: "1 \<le> idigits b (n div b)"
      "b ^ nat (idigits b (n div b) - 1) \<le> n div b"
      "n div b < b ^ nat (idigits b (n div b))"
      by simp_all
    define d where "d = nat (idigits b (n div b) - 1)"
    have d: "nat (idigits b (n div b)) = Suc d" using ih(1) by (simp add: d_def)
    have pos: "0 < b" using b by simp
    have "b * (n div b) \<le> n"
      using pos_mod_sign [OF pos, of n] mult_div_mod_eq [of b n] by linarith
    moreover have "b * b ^ d \<le> b * (n div b)"
      using ih(2) pos by (simp add: d_def)
    ultimately have low: "b ^ Suc d \<le> n" by simp
    have "n div b + 1 \<le> b ^ Suc d" using ih(3) by (simp add: d)
    then have "b * (n div b + 1) \<le> b * b ^ Suc d"
      using pos by (simp only: mult_le_cancel_left_pos)
    moreover have "n < b * (n div b + 1)"
      using pos_mod_bound [OF pos, of n] mult_div_mod_eq [of b n]
      by (simp only: distrib_left mult_1_right)
    ultimately have up: "n < b ^ Suc (Suc d)" by simp
    from low up ih(1) show ?thesis
      by (simp add: step d nat_add_distrib)
  qed
qed

lemma inverse_le_swap: "0 < (a::rat) \<Longrightarrow> 0 < c \<Longrightarrow> 1 / a \<le> c \<Longrightarrow> 1 / c \<le> a"
  by (simp add: field_simps)

lemma inverse_less_swap: "0 < (a::rat) \<Longrightarrow> 0 < c \<Longrightarrow> c < 1 / a \<Longrightarrow> a < 1 / c"
  by (simp add: field_simps)

lemma ilog_bounds:
  assumes b: "1 < b" and a: "0 < a"
  shows "ipow b (ilog b a) \<le> a \<and> a < ipow b (ilog b a + 1)"
proof (cases "1 \<le> a")
  case True
  define n where "n = \<lfloor>a\<rfloor>"
  define d where "d = idigits b n"
  have n: "0 < n" using True by (simp add: n_def)
  from idigits_bounds [OF b n]
  have d: "1 \<le> d" "b ^ nat (d - 1) \<le> n" "n < b ^ nat d" by (simp_all add: d_def)
  have il: "ilog b a = d - 1" using True by (simp add: ilog_def d_def n_def)
  have "(of_int (b ^ nat (d - 1)) :: rat) \<le> of_int n"
    using d(2) by (simp only: of_int_le_iff)
  also have "\<dots> \<le> a" by (simp add: n_def)
  finally have low: "ipow b (d - 1) \<le> a" using d(1) by (simp add: ipow_def)
  have "a < of_int (n + 1)" unfolding n_def by linarith
  also have "(of_int (n + 1) :: rat) \<le> of_int (b ^ nat d)"
  proof -
    have "n + 1 \<le> b ^ nat d" using d(3) by simp
    then show ?thesis by (simp only: of_int_le_iff)
  qed
  finally have "a < ipow b d" using d(1) by (simp add: ipow_def)
  with low show ?thesis by (simp add: il)
next
  case False
  define c where "c = \<lceil>1 / a\<rceil>"
  define k where "k = idigits b (c - 1)"
  have inv: "1 < 1 / a" using False a by simp
  then have "1 < c" by (simp add: c_def less_ceiling_iff)
  then have c: "0 < c - 1" by simp
  from idigits_bounds [OF b c]
  have k: "1 \<le> k" "b ^ nat (k - 1) \<le> c - 1" "c - 1 < b ^ nat k" by (simp_all add: k_def)
  have il: "ilog b a = - k" using False by (simp add: ilog_def k_def c_def)
  have bpos: "0 < (of_int (b ^ m) :: rat)" for m using b by simp
  have "1 / a \<le> of_int c" by (simp add: c_def)
  also have "(of_int c :: rat) \<le> of_int (b ^ nat k)"
  proof -
    have "c \<le> b ^ nat k" using k(3) by simp
    then show ?thesis by (simp only: of_int_le_iff)
  qed
  finally have "1 / a \<le> of_int (b ^ nat k)" .
  then have "1 / of_int (b ^ nat k) \<le> a"
    by (rule inverse_le_swap [OF a bpos])
  then have low: "ipow b (- k) \<le> a" using k(1) by (simp add: ipow_def)
  have up: "a < ipow b (- k + 1)"
  proof (cases "k = 1")
    case True
    then show ?thesis using False by (simp add: ipow_def)
  next
    case k1: False
    have "(of_int (b ^ nat (k - 1)) :: rat) \<le> of_int (c - 1)"
      using k(2) by (simp only: of_int_le_iff)
    also have "(of_int (c - 1) :: rat) < 1 / a"
      using ceiling_correct [of "1 / a"] by (simp add: c_def)
    finally have "of_int (b ^ nat (k - 1)) < 1 / a" .
    then have "a < 1 / of_int (b ^ nat (k - 1))"
      by (rule inverse_less_swap [OF a bpos])
    moreover have "\<not> 0 \<le> - k + 1" using k(1) k1 by simp
    moreover have "nat (- (- k + 1)) = nat (k - 1)" by simp
    ultimately show ?thesis by (simp only: ipow_def if_False)
  qed
  from low up show ?thesis by (simp add: il)
qed

text \<open>The rounding to an integer is to a nearest one.\<close>

lemma round_half_even_nearest: "\<bar>of_int (round_half_even x) - x\<bar> \<le> 1 / 2"
proof -
  have "of_int \<lfloor>x\<rfloor> \<le> x" "x < of_int \<lfloor>x\<rfloor> + 1"
    by linarith+
  then show ?thesis
    by (auto simp: round_half_even_def Let_def)
qed

lemma round_half_even_of_int: "round_half_even (of_int k) = k"
  by (simp add: round_half_even_def)

text \<open>Every integer of magnitude at most \<open>2 ^ 53\<close> is a double: its rounding is exact.\<close>

lemma round_to_double_int:
  assumes "0 \<le> n" "n \<le> 2 ^ 53"
  shows "round_to_double s (of_int n) = Finite s (of_int n)"
proof (cases "n = 0")
  case True
  then show ?thesis by (simp add: round_to_double_def)
next
  case False
  with assms have pos: "0 < n" by simp
  define e where "e = idigits 2 n - 1"
  have e0: "0 \<le> e" and low: "2 ^ nat e \<le> n"
    using idigits_bounds [of 2 n] pos by (simp_all add: e_def)
  have ilog: "ilog 2 (of_int n) = e"
    using pos by (simp add: ilog_def e_def)
  have q: "max (ilog 2 (of_int n) - 52) (- 1074) = e - 52"
    using e0 by (simp add: ilog)
  have small: "\<not> (of_int (2 ^ 1024) :: rat) \<le> of_int n"
  proof -
    have "n < 2 ^ 1024" using assms(2) by (rule order_le_less_trans) simp
    then show ?thesis by (simp only: of_int_le_iff not_le)
  qed
  have exact: "of_int (round_half_even (of_int n / ipow 2 (e - 52))) * ipow 2 (e - 52)
      = (of_int n :: rat)"
  proof (cases "e \<le> 52")
    case True
    show ?thesis
    proof (cases "e = 52")
      case True
      then show ?thesis by (simp add: ipow_def round_half_even_of_int)
    next
      case False
      with True have neg: "\<not> 0 \<le> e - 52" by simp
      have "of_int n / ipow 2 (e - 52) = (of_int (n * 2 ^ nat (52 - e)) :: rat)"
        using neg by (simp add: ipow_def)
      then have "round_half_even (of_int n / ipow 2 (e - 52)) = n * 2 ^ nat (52 - e)"
        by (simp only: round_half_even_of_int)
      then show ?thesis using neg by (simp add: ipow_def)
    qed
  next
    case False
    then have "53 \<le> nat e" by simp
    then have "(2::int) ^ 53 \<le> 2 ^ nat e" by (rule power_increasing) simp
    with low assms(2) have n: "n = 2 ^ 53" and "(2::int) ^ nat e = 2 ^ 53" by simp_all
    then have "nat e = 53" by (simp only: power_inject_exp [of 2])
    then have e: "e = 53" by simp
    have "(of_int n :: rat) / ipow 2 (e - 52) = of_int (2 ^ 52)"
      by (simp add: e n ipow_def)
    then have "round_half_even (of_int n / ipow 2 (e - 52)) = 2 ^ 52"
      by (simp only: round_half_even_of_int)
    then show ?thesis by (simp add: e n ipow_def)
  qed
  show ?thesis
    using False small by (simp add: round_to_double_def q exact Let_def)
qed

lemma size_to_double_exact:
  "n \<le> 2 ^ 53 \<Longrightarrow> size_to_double n = Finite False (of_nat n)"
proof -
  assume "n \<le> 2 ^ 53"
  then have "int n \<le> 2 ^ 53"
    by (simp add: of_nat_le_iff [of n "2 ^ 53", where ?'a = int, symmetric] del: of_nat_le_iff)
  then have "round_to_double False (of_int (int n)) = Finite False (of_int (int n))"
    by (intro round_to_double_int) simp_all
  then show ?thesis by (simp add: size_to_double_def)
qed

text \<open>
  \<open>long_rem\<close> is the remainder of the division truncating toward zero: smaller in
  magnitude than the divisor, and of the sign of the dividend.
\<close>

lemma long_rem_abs: "long_rem a b = sgn a * (\<bar>a\<bar> mod \<bar>b\<bar>)"
proof -
  have b: "sgn b * b = \<bar>b\<bar>"
    by (simp add: sgn_if)
  have "sgn a * sgn b * (\<bar>a\<bar> div \<bar>b\<bar>) * b = sgn a * ((\<bar>a\<bar> div \<bar>b\<bar>) * (sgn b * b))"
    by (simp only: ac_simps)
  then have "long_rem a b = sgn a * \<bar>a\<bar> - sgn a * ((\<bar>a\<bar> div \<bar>b\<bar>) * \<bar>b\<bar>)"
    by (simp only: long_rem_def b sgn_mult_abs)
  also have "\<dots> = sgn a * (\<bar>a\<bar> - (\<bar>a\<bar> div \<bar>b\<bar>) * \<bar>b\<bar>)"
    by (simp only: right_diff_distrib)
  also have "\<bar>a\<bar> - (\<bar>a\<bar> div \<bar>b\<bar>) * \<bar>b\<bar> = \<bar>a\<bar> mod \<bar>b\<bar>"
    by (simp only: minus_div_mult_eq_mod)
  finally show ?thesis .
qed

lemma long_rem_bound: "b \<noteq> 0 \<Longrightarrow> \<bar>long_rem a b\<bar> < \<bar>b\<bar>"
  by (simp add: long_rem_abs abs_mult abs_sgn_eq)

lemma long_rem_sign: "(0 \<le> a \<longrightarrow> 0 \<le> long_rem a b) \<and> (a \<le> 0 \<longrightarrow> long_rem a b \<le> 0)"
proof -
  have "0 \<le> \<bar>a\<bar> mod \<bar>b\<bar>"
    by (cases "b = 0") simp_all
  then show ?thesis
    by (auto simp: long_rem_abs sgn_if)
qed

lemma long_rem_quotient: "\<exists>q. a = q * b + long_rem a b"
  by (rule exI [of _ "sgn a * sgn b * (\<bar>a\<bar> div \<bar>b\<bar>)"]) (simp add: long_rem_def)

text \<open>
  More generally, every integer \<open>k * 2 ^ j\<close> with \<open>k < 2 ^ 53\<close> below \<open>2 ^ 1024\<close> is a double;
  the integral part of a double is such an integer, and so is the remainder of two of
  them. Hence the remainder \<^verbatim>\<open>yar_modulo\<close> computes is converted to \<^verbatim>\<open>double\<close> exactly.
\<close>

lemma round_to_double_scaled:
  fixes k :: int and j :: nat
  assumes k: "0 < k" "k < 2 ^ 53" and fin: "k * 2 ^ j < 2 ^ 1024"
  shows "round_to_double s (of_int (k * 2 ^ j)) = Finite s (of_int (k * 2 ^ j))"
proof -
  define N where "N = k * 2 ^ j"
  have pos: "0 < N" using k(1) by (simp add: N_def)
  define e where "e = idigits 2 N - 1"
  have e0: "0 \<le> e" and low: "2 ^ nat e \<le> N"
    using idigits_bounds [of 2 N] pos by (simp_all add: e_def)
  have ilog: "ilog 2 (of_int N) = e"
    using pos by (simp add: ilog_def e_def)
  have q: "max (ilog 2 (of_int N) - 52) (- 1074) = e - 52"
    using e0 by (simp add: ilog)
  have small: "\<not> (of_int (2 ^ 1024) :: rat) \<le> of_int N"
    using fin by (simp only: of_int_le_iff not_le N_def)
  have exact: "of_int (round_half_even (of_int N / ipow 2 (e - 52))) * ipow 2 (e - 52)
      = (of_int N :: rat)"
  proof (cases "e \<le> 52")
    case True
    show ?thesis
    proof (cases "e = 52")
      case True
      then show ?thesis by (simp add: ipow_def round_half_even_of_int)
    next
      case False
      with True have neg: "\<not> 0 \<le> e - 52" by simp
      have "of_int N / ipow 2 (e - 52) = (of_int (N * 2 ^ nat (52 - e)) :: rat)"
        using neg by (simp add: ipow_def)
      then have "round_half_even (of_int N / ipow 2 (e - 52)) = N * 2 ^ nat (52 - e)"
        by (simp only: round_half_even_of_int)
      then show ?thesis using neg by (simp add: ipow_def)
    qed
  next
    case False
    define q where "q = nat (e - 52)"
    have qe: "e - 52 = int q" "nat e = q + 52" using False by (simp_all add: q_def)
    have "N < 2 ^ 53 * 2 ^ j"
      unfolding N_def using k(2) by (simp only: mult_less_cancel_right) simp
    with low have "(2::int) ^ nat e < 2 ^ (53 + j)"
      by (simp add: power_add)
    then have "nat e < 53 + j"
      by (simp only: power_strict_increasing_iff [of 2]) 
    then have qj: "q \<le> j" using qe by simp
    define M where "M = k * 2 ^ (j - q)"
    have NM: "N = M * 2 ^ q"
      using qj by (simp add: N_def M_def power_add [symmetric])
    have "(of_int N :: rat) / ipow 2 (e - 52) = of_int M"
      by (simp add: qe ipow_def NM)
    then have "round_half_even (of_int N / ipow 2 (e - 52)) = M"
      by (simp only: round_half_even_of_int)
    then show ?thesis by (simp add: qe ipow_def NM)
  qed
  have "round_to_double s (of_int N) = Finite s (of_int N)"
    using pos small by (simp add: round_to_double_def q exact Let_def)
  then show ?thesis by (simp only: N_def)
qed


lemma mod_scaled:
  fixes k1 k2 :: int and j1 j2 :: nat
  assumes k1: "0 \<le> k1" "k1 < 2 ^ 53" and k2: "k2 < 2 ^ 53" and pos: "0 < k2 * 2 ^ j2"
  shows "\<exists>k j. (k1 * 2 ^ j1) mod (k2 * 2 ^ j2) = k * 2 ^ (j::nat) \<and> 0 \<le> k \<and> k < 2 ^ 53"
proof -
  define M where "M = k1 * 2 ^ j1"
  define N where "N = k2 * 2 ^ j2"
  have N: "0 < N" using pos by (simp add: N_def)
  have M: "0 \<le> M" using k1(1) by (simp add: M_def)
  have r: "0 \<le> M mod N" "M mod N < N" "M mod N \<le> M"
    using N M by (simp_all add: zmod_le_nonneg_dividend)
  define j where "j = min j1 j2"
  have "(2::int) ^ j dvd 2 ^ j1" "(2::int) ^ j dvd 2 ^ j2"
    by (simp_all add: j_def le_imp_power_dvd)
  then have "2 ^ j dvd M" "2 ^ j dvd N"
    by (simp_all add: M_def N_def)
  then have "2 ^ j dvd M mod N" by (simp add: dvd_mod)
  then obtain k where k: "M mod N = k * 2 ^ j"
    by (auto simp: dvd_def mult.commute)
  have k0: "0 \<le> k"
    using r(1) by (simp add: k zero_le_mult_iff)
  have "k < 2 ^ 53"
  proof (cases "j1 \<le> j2")
    case True
    then have "j = j1" by (simp add: j_def)
    moreover have "k * 2 ^ j \<le> M" using r(3) by (simp only: k)
    ultimately have "k * 2 ^ j1 \<le> k1 * 2 ^ j1" by (simp only: M_def)
    then have "k \<le> k1" by simp
    with k1(2) show ?thesis by simp
  next
    case False
    then have "j = j2" by (simp add: j_def)
    moreover have "k * 2 ^ j < N" using r(2) by (simp only: k)
    ultimately have "k * 2 ^ j2 < k2 * 2 ^ j2" by (simp only: N_def)
    then have "k < k2" by simp
    with k2 show ?thesis by simp
  qed
  with k k0 show ?thesis unfolding M_def N_def by blast
qed

lemma is_double_floor_scaled:
  assumes "is_double (Finite s a)"
  shows "\<exists>k j. \<lfloor>a\<rfloor> = k * 2 ^ (j::nat) \<and> 0 \<le> k \<and> k < 2 ^ 53"
proof (cases "\<lfloor>a\<rfloor> < 2 ^ 53")
  case True
  from assms have "0 \<le> a" by (simp add: is_double_def)
  then have "0 \<le> \<lfloor>a\<rfloor>" by simp
  with True have "\<lfloor>a\<rfloor> = \<lfloor>a\<rfloor> * 2 ^ (0::nat) \<and> 0 \<le> \<lfloor>a\<rfloor> \<and> \<lfloor>a\<rfloor> < 2 ^ 53" by simp
  then show ?thesis by blast
next
  case False
  then have big: "2 ^ 53 \<le> \<lfloor>a\<rfloor>" by simp
  then have "1 \<le> \<lfloor>a\<rfloor>" by simp
  then have a1: "1 \<le> a" by simp
  then have a0: "a \<noteq> 0" by simp
  define n where "n = \<lfloor>a\<rfloor>"
  have bign: "2 ^ 53 \<le> n" using big by (simp only: n_def)
  have n: "0 < n" using bign by (rule order_less_le_trans [rotated]) simp
  define e where "e = idigits 2 n - 1"
  from idigits_bounds [of 2 n] n
  have b: "0 \<le> e" "2 ^ nat e \<le> n" "n < 2 ^ nat (e + 1)"
    by (simp_all add: e_def)
  have "(2::int) ^ 53 < 2 ^ nat (e + 1)"
    using bign b(3) by (rule order_le_less_trans)
  then have "53 < nat (e + 1)"
    by (simp only: power_strict_increasing_iff [of 2])
  then have e53: "53 \<le> e" by simp
  define q where "q = nat (e - 52)"
  have qe: "e - 52 = int q" "nat (e + 1) = q + 53" using e53 by (simp_all add: q_def)
  have ilog: "ilog 2 a = e" using a1 by (simp add: ilog_def e_def n_def)
  have qmax: "max (ilog 2 a - 52) (- 1074) = int q"
    using e53 by (simp add: ilog qe)
  define m where "m = round_half_even (a / ipow 2 (int q))"
  from assms have "round_to_double s a = Finite s a" by (simp add: is_double_def)
  then have "of_int m * ipow 2 (int q) = a"
    using a0 by (simp add: round_to_double_def qmax Let_def m_def split: if_splits)
  then have a: "a = of_int (m * 2 ^ q)" by (simp add: ipow_def)
  then have fl: "n = m * 2 ^ q" unfolding n_def by (simp only: floor_of_int)
  have "m * 2 ^ q < 2 ^ 53 * 2 ^ q"
    using b(3) by (simp add: fl qe power_add mult.commute)
  then have m53: "m < 2 ^ 53" by simp
  have "0 \<le> m * 2 ^ q" using n by (simp add: fl)
  then have "0 \<le> m" by (simp add: zero_le_mult_iff)
  with m53 fl show ?thesis unfolding n_def by blast
qed


lemma double_to_long_abs:
  assumes "is_double x" "double_to_long x = Some m"
  shows "\<exists>k j. \<bar>m\<bar> = k * 2 ^ (j::nat) \<and> 0 \<le> k \<and> k < 2 ^ 53"
proof (cases x)
  case (Finite s a)
  with assms(1) have "0 \<le> a" by (simp add: is_double_def)
  then have "0 \<le> \<lfloor>a\<rfloor>" by simp
  moreover from assms(2) Finite have "m = (if s then - \<lfloor>a\<rfloor> else \<lfloor>a\<rfloor>)"
    by (auto simp: double_to_long_def Let_def split: if_splits)
  ultimately have "\<bar>m\<bar> = \<lfloor>a\<rfloor>" by simp
  with is_double_floor_scaled [of s a] assms(1) Finite show ?thesis by simp
next
  case (Infinity s)
  with assms(2) show ?thesis by (simp add: double_to_long_def)
next
  case NaN
  with assms(2) show ?thesis by (simp add: double_to_long_def)
qed

lemma double_to_long_range:
  "double_to_long x = Some m \<Longrightarrow> \<bar>m\<bar> \<le> 2 ^ 63"
  by (cases x) (auto simp: double_to_long_def Let_def LONG_MIN_def LONG_MAX_def split: if_splits)

lemma remainder_is_double:
  assumes x: "is_double x" "double_to_long x = Some m"
    and y: "is_double y" "double_to_long y = Some n" and n: "n \<noteq> 0"
  shows "long_to_double (long_rem m n) = Finite (long_rem m n < 0) (of_int \<bar>long_rem m n\<bar>)"
proof -
  define r where "r = long_rem m n"
  from double_to_long_abs [OF x] obtain k1 and j1 :: nat
    where m: "\<bar>m\<bar> = k1 * 2 ^ j1" "0 \<le> k1" "k1 < 2 ^ 53" by blast
  from double_to_long_abs [OF y] obtain k2 and j2 :: nat
    where n2: "\<bar>n\<bar> = k2 * 2 ^ j2" "0 \<le> k2" "k2 < 2 ^ 53" by blast
  have npos: "0 < k2 * 2 ^ j2" using n n2(1) by simp
  have abs_r: "\<bar>r\<bar> = \<bar>m\<bar> mod \<bar>n\<bar>"
  proof (cases "m = 0")
    case True
    then show ?thesis by (simp add: r_def long_rem_abs)
  next
    case False
    have "0 \<le> \<bar>m\<bar> mod \<bar>n\<bar>" using n by simp
    then show ?thesis using False by (simp add: r_def long_rem_abs abs_mult)
  qed
  from mod_scaled [OF m(2) m(3) n2(3) npos, of j1] obtain k and j :: nat
    where k: "\<bar>m\<bar> mod \<bar>n\<bar> = k * 2 ^ j" "0 \<le> k" "k < 2 ^ 53"
    by (auto simp only: m(1) n2(1))
  show ?thesis
  proof (cases "r = 0")
    case True
    then show ?thesis by (simp add: r_def [symmetric] long_to_double_def round_to_double_def)
  next
    case False
    with abs_r k(1) have "k \<noteq> 0" by auto
    with k(2) have kpos: "0 < k" by simp
    have "\<bar>r\<bar> < \<bar>n\<bar>" unfolding r_def using n by (rule long_rem_bound)
    also have "\<bar>n\<bar> \<le> 2 ^ 63" using y(2) by (rule double_to_long_range)
    also have "(2::int) ^ 63 < 2 ^ 1024" by simp
    finally have "k * 2 ^ j < 2 ^ 1024" by (simp only: abs_r k(1))
    from round_to_double_scaled [OF kpos k(3) this, of "r < 0"]
    have "round_to_double (r < 0) (of_int \<bar>r\<bar>) = Finite (r < 0) (of_int \<bar>r\<bar>)"
      by (simp only: abs_r k(1))
    then show ?thesis by (simp only: long_to_double_def r_def)
  qed
qed

subsection \<open>Modulo\<close>

lemma yar_modulo_numbers:
  "yar_modulo (VNumber x) (VNumber y) =
     (case (double_to_long x, double_to_long y) of
        (Some m, Some n) \<Rightarrow>
          if n = 0 then Inl (Undefined Remainder_By_Zero)
          else if m = LONG_MIN \<and> n = - 1 then Inl (Undefined Remainder_Overflow)
          else Inr (VNumber (long_to_double (long_rem m n)))
      | _ \<Rightarrow> Inl (Undefined Conversion_Out_Of_Range))"
  by (simp add: yar_modulo_def is_defs yar_number_def split: option.split)

text \<open>
  C5, as the code has it. When the integral parts \<open>m\<close> and \<open>n\<close> of both numbers are
  \<^verbatim>\<open>long\<close> values, \<open>n\<close> is not zero and the pair is not \<^verbatim>\<open>LONG_MIN\<close> and \<open>-1\<close>,
  \<^verbatim>\<open>yar_modulo\<close> returns the remainder of \<open>m\<close> by \<open>n\<close> converted to \<^verbatim>\<open>double\<close>, which is
  that remainder itself on doubles; the remainder is the one of the division that
  truncates, smaller than \<open>n\<close> in magnitude and of the sign of \<open>m\<close>. The conversion to
  \<^verbatim>\<open>long\<close> discards the fractional part, toward zero. So 7.9 modulo 2.5 is 1 (7.9 being
  the double nearest to 79/10). An operand that is not a number ends in \<^verbatim>\<open>yar_error\<close>,
  which names both types.
\<close>

theorem C5_modulo:
  "(double_to_long x = Some m \<and> double_to_long y = Some n \<and> n \<noteq> 0
      \<and> \<not> (m = LONG_MIN \<and> n = - 1) \<longrightarrow>
      yar_modulo (VNumber x) (VNumber y) = Inr (VNumber (long_to_double (long_rem m n)))
      \<and> (is_double x \<and> is_double y \<longrightarrow>
           yar_modulo (VNumber x) (VNumber y) =
             Inr (VNumber (Finite (long_rem m n < 0) (of_int \<bar>long_rem m n\<bar>))))
      \<and> (\<exists>q. m = q * n + long_rem m n) \<and> \<bar>long_rem m n\<bar> < \<bar>n\<bar>
      \<and> (0 \<le> m \<longrightarrow> 0 \<le> long_rem m n) \<and> (m \<le> 0 \<longrightarrow> long_rem m n \<le> 0))
   \<and> (double_to_long (Finite s a) = Some m \<longrightarrow> m = (if s then - \<lfloor>a\<rfloor> else \<lfloor>a\<rfloor>))
   \<and> round_to_double False (79 / 10) = Finite False (4447304632028365 / 2 ^ 49)
   \<and> yar_modulo (VNumber (Finite False (4447304632028365 / 2 ^ 49)))
         (VNumber (Finite False (5 / 2))) = Inr (VNumber (Finite False 1))
   \<and> (\<not> (yar_is_number u \<and> yar_is_number v) \<longrightarrow>
        yar_modulo u v =
          Inl (yar_error (''Cannot modulo '' @ yar_type_name u @ '' and '' @ yar_type_name v)))"
proof -
  have general: "double_to_long x = Some m \<and> double_to_long y = Some n \<and> n \<noteq> 0
      \<and> \<not> (m = LONG_MIN \<and> n = - 1) \<longrightarrow>
      yar_modulo (VNumber x) (VNumber y) = Inr (VNumber (long_to_double (long_rem m n)))
      \<and> (is_double x \<and> is_double y \<longrightarrow>
           yar_modulo (VNumber x) (VNumber y) =
             Inr (VNumber (Finite (long_rem m n < 0) (of_int \<bar>long_rem m n\<bar>))))
      \<and> (\<exists>q. m = q * n + long_rem m n) \<and> \<bar>long_rem m n\<bar> < \<bar>n\<bar>
      \<and> (0 \<le> m \<longrightarrow> 0 \<le> long_rem m n) \<and> (m \<le> 0 \<longrightarrow> long_rem m n \<le> 0)"
    using long_rem_quotient [of m n] long_rem_bound [of n m] long_rem_sign [of m n]
      remainder_is_double [of x m y n]
    by (auto simp: yar_modulo_numbers)
  have trunc: "double_to_long (Finite s a) = Some m \<longrightarrow> m = (if s then - \<lfloor>a\<rfloor> else \<lfloor>a\<rfloor>)"
    by (auto simp: double_to_long_def Let_def split: if_splits)
  have literal: "round_to_double False (79 / 10) = Finite False (4447304632028365 / 2 ^ 49)"
    by code_simp
  have example: "yar_modulo (VNumber (Finite False (4447304632028365 / 2 ^ 49)))
      (VNumber (Finite False (5 / 2))) = Inr (VNumber (Finite False 1))"
    unfolding yar_modulo_numbers by code_simp
  have mismatch: "\<not> (yar_is_number u \<and> yar_is_number v) \<longrightarrow>
      yar_modulo u v =
        Inl (yar_error (''Cannot modulo '' @ yar_type_name u @ '' and '' @ yar_type_name v))"
    by (simp add: yar_modulo_def)
  from general trunc literal example mismatch show ?thesis
    by (intro conjI)
qed

theorem C5_modulo_witness:
  "is_double (Finite True (15 / 2)) \<and> is_double (Finite False 2)
   \<and> double_to_long (Finite True (15 / 2)) = Some (- 7)
   \<and> double_to_long (Finite False 2) = Some 2
   \<and> yar_modulo (VNumber (Finite True (15 / 2))) (VNumber (Finite False 2)) =
        Inr (VNumber (Finite True 1))
   \<and> yar_modulo (VString ''7'') (VNumber (Finite False 2)) =
        Inl (Terminated (''Runtime error: Cannot modulo string and number'' @ [CHR 0x0A]) 1)"
proof -
  have m: "double_to_long (Finite True (15 / 2)) = Some (- 7)"
    and n: "double_to_long (Finite False 2) = Some 2"
    and r: "long_rem (- 7) 2 = - 1"
    and ne: "\<not> (- 7 = LONG_MIN \<and> (2::int) = - 1)"
    and d: "is_double (Finite True (15 / 2))" "is_double (Finite False 2)"
    and l: "long_to_double (- 1) = Finite True 1"
    by code_simp+
  have s: "\<not> (yar_is_number (VString ''7'') \<and> yar_is_number (VNumber (Finite False 2)))"
    by (simp add: is_defs tag_defs)
  from C5_modulo [of "Finite True (15 / 2)" "- 7" "Finite False 2" 2 True "15 / 2"
      "VString ''7''" "VNumber (Finite False 2)"] m n r ne d l s
  show ?thesis
    by (simp add: yar_error_def yar_type_name_def type_name_of_tag_def tag_defs)
qed

text \<open>
  The claim C5 as the specification states it, for every pair of numbers, fails where
  the integral part of an operand is not a \<^verbatim>\<open>long\<close>: \<open>2 ^ 63\<close> is a double, its remainder
  by 3 is 2, and \<^verbatim>\<open>yar_modulo\<close> returns no value on it, the conversion being undefined.
\<close>

theorem C5_modulo_counterexample:
  "is_double (Finite False (2 ^ 63)) \<and> is_double (Finite False 3)
   \<and> long_rem (2 ^ 63) 3 = 2
   \<and> yar_modulo (VNumber (Finite False (2 ^ 63))) (VNumber (Finite False 3)) =
        Inl (Undefined Conversion_Out_Of_Range)
   \<and> yar_modulo (VNumber (Finite False (2 ^ 63))) (VNumber (Finite False 3)) \<noteq>
        Inr (VNumber (Finite False 2))"
proof -
  have "is_double (Finite False (2 ^ 63))" "is_double (Finite False 3)"
    "long_rem (2 ^ 63) 3 = 2"
    by code_simp+
  moreover have "double_to_long (Finite False (2 ^ 63)) = None"
    by code_simp
  then have "yar_modulo (VNumber (Finite False (2 ^ 63))) (VNumber (Finite False 3)) =
      Inl (Undefined Conversion_Out_Of_Range)"
    by (simp add: yar_modulo_numbers)
  ultimately show ?thesis by simp
qed

text \<open>
  C10. \<^verbatim>\<open>yar_modulo\<close> has no zero check. When the divisor truncates to zero, the run
  never ends in the error \<open>Division by zero\<close> that \<^verbatim>\<open>yar_divide\<close> raises for a zero
  divisor: it is undefined behaviour, and the remainder by zero itself whenever the
  dividend converts to a \<^verbatim>\<open>long\<close>.
\<close>

theorem C10_modulo_zero_divisor:
  "(double_to_long y = Some 0 \<longrightarrow>
      (\<exists>u. yar_modulo (VNumber x) (VNumber y) = Inl (Undefined u))
      \<and> yar_modulo (VNumber x) (VNumber y) \<noteq> Inl (yar_error ''Division by zero'')
      \<and> (double_to_long x \<noteq> None \<longrightarrow>
           yar_modulo (VNumber x) (VNumber y) = Inl (Undefined Remainder_By_Zero)))
   \<and> (deq y (Finite False 0) \<longrightarrow>
        double_to_long y = Some 0
        \<and> yar_divide (VNumber x) (VNumber y) = Inl (yar_error ''Division by zero''))"
proof -
  have modulo: "double_to_long y = Some 0 \<longrightarrow>
      (\<exists>u. yar_modulo (VNumber x) (VNumber y) = Inl (Undefined u))
      \<and> yar_modulo (VNumber x) (VNumber y) \<noteq> Inl (yar_error ''Division by zero'')
      \<and> (double_to_long x \<noteq> None \<longrightarrow>
           yar_modulo (VNumber x) (VNumber y) = Inl (Undefined Remainder_By_Zero))"
    by (cases "double_to_long x") (auto simp: yar_modulo_numbers yar_error_def)
  have divide: "deq y (Finite False 0) \<longrightarrow>
      double_to_long y = Some 0
      \<and> yar_divide (VNumber x) (VNumber y) = Inl (yar_error ''Division by zero'')"
    by (cases y)
       (auto simp: double_to_long_def LONG_MIN_def LONG_MAX_def yar_divide_def is_defs)
  from modulo divide show ?thesis ..
qed

theorem C10_modulo_zero_divisor_witness:
  "double_to_long (Finite False (1 / 2)) = Some 0
   \<and> yar_modulo (VNumber (Finite False 7)) (VNumber (Finite False (1 / 2))) =
        Inl (Undefined Remainder_By_Zero)
   \<and> yar_divide (VNumber (Finite False 7)) (VNumber (Finite True 0)) =
        Inl (Terminated (''Runtime error: Division by zero'' @ [CHR 0x0A]) 1)"
proof -
  have y: "double_to_long (Finite False (1 / 2)) = Some 0"
    and x: "double_to_long (Finite False 7) \<noteq> None"
    by code_simp+
  from C10_modulo_zero_divisor [of "Finite False (1 / 2)" "Finite False 7"]
    C10_modulo_zero_divisor [of "Finite True 0" "Finite False 7"] x y
  show ?thesis
    by (simp add: yar_error_def)
qed

subsection \<open>Length\<close>

text \<open>
  C6. \<^verbatim>\<open>yar_len\<close> of a string is the number holding its byte length, converted from
  \<^verbatim>\<open>size_t\<close> to \<^verbatim>\<open>double\<close>: the length itself up to \<open>2 ^ 53\<close> bytes. So the length of
  \<open>hello\<close> is 5. On any other value \<^verbatim>\<open>yar_len\<close> ends in \<^verbatim>\<open>yar_error\<close> with a message
  naming the type of the value.
\<close>

theorem C6_len:
  "yar_len (VString s) = Inr (VNumber (size_to_double (length s)))
   \<and> (length s \<le> 2 ^ 53 \<longrightarrow>
        yar_len (VString s) = Inr (VNumber (Finite False (of_nat (length s)))))
   \<and> yar_len (VString ''hello'') = Inr (VNumber (Finite False 5))
   \<and> (\<not> yar_is_string v \<longrightarrow>
        yar_len v = Inl (yar_error (''len() requires string, got '' @ yar_type_name v)))
   \<and> yar_len (VNumber (Finite False 5)) =
        Inl (Terminated (''Runtime error: len() requires string, got number'' @ [CHR 0x0A]) 1)"
proof -
  have len: "yar_len (VString s) = Inr (VNumber (size_to_double (length s)))" for s
    by (simp add: yar_len_def is_defs strlen_def yar_number_def)
  have exact: "length s \<le> 2 ^ 53 \<longrightarrow>
      yar_len (VString s) = Inr (VNumber (Finite False (of_nat (length s))))" for s
    by (simp add: len size_to_double_exact)
  have hello: "yar_len (VString ''hello'') = Inr (VNumber (Finite False 5))"
    using exact [of "''hello''"] by simp
  have other: "\<not> yar_is_string v \<longrightarrow>
      yar_len v = Inl (yar_error (''len() requires string, got '' @ yar_type_name v))"
    by (simp add: yar_len_def)
  have number: "yar_len (VNumber (Finite False 5)) =
      Inl (Terminated (''Runtime error: len() requires string, got number'' @ [CHR 0x0A]) 1)"
    by (simp add: yar_len_def is_defs tag_defs yar_error_def yar_type_name_def
        type_name_of_tag_def)
  from len [of s] exact [of s] hello other number show ?thesis
    by (intro conjI)
qed

theorem C6_len_witness:
  "length ''ab'' \<le> 2 ^ 53
   \<and> yar_len (VString ''ab'') = Inr (VNumber (Finite False 2))
   \<and> \<not> yar_is_string VNil
   \<and> yar_len VNil =
        Inl (Terminated (''Runtime error: len() requires string, got nil'' @ [CHR 0x0A]) 1)"
proof -
  from C6_len [of "''ab''" VNil]
  have "length ''ab'' \<le> 2 ^ 53 \<longrightarrow>
      yar_len (VString ''ab'') = Inr (VNumber (Finite False (of_nat (length ''ab''))))"
    and "\<not> yar_is_string VNil \<longrightarrow>
      yar_len VNil = Inl (yar_error (''len() requires string, got '' @ yar_type_name VNil))"
    by blast+
  then show ?thesis
    by (simp add: is_defs tag_defs yar_error_def yar_type_name_def type_name_of_tag_def)
qed

subsection \<open>Printing\<close>

text \<open>
  C9, as the code has it. \<^verbatim>\<open>yar_print\<close> appends to the output \<open>nil\<close> for nil, \<open>true\<close> or
  \<open>false\<close> for a bool, the content of a string, \<open><function>\<close> for a function, and for
  a number its \<^verbatim>\<open>%g\<close> conversion: for a finite number the value rounded to six
  significant decimal digits, in fixed or exponent notation, without trailing zeros,
  after a minus sign when the sign bit is set; \<open>inf\<close> or \<open>-inf\<close> for an infinity; and
  for a NaN one of \<open>nan\<close> and \<open>-nan\<close>. Every value but a NaN has exactly one text.
  \<^verbatim>\<open>yar_println\<close> appends the same text and one newline.
\<close>

theorem C9_print:
  "yar_print VNil out = {out @ ''nil''}
   \<and> yar_print (VBool True) out = {out @ ''true''}
   \<and> yar_print (VBool False) out = {out @ ''false''}
   \<and> yar_print (VNumber (Finite sg a)) out =
        {out @ (if sg then ''-'' else []) @ fmt_g_magnitude a}
   \<and> yar_print (VNumber (Infinity sg)) out = {out @ (if sg then ''-inf'' else ''inf'')}
   \<and> yar_print (VNumber NaN) out = {out @ ''nan'', out @ ''-nan''}
   \<and> yar_print (VString s) out = {out @ s}
   \<and> yar_print (VFunction f) out = {out @ ''<function>''}
   \<and> (v \<noteq> VNumber NaN \<longrightarrow> (\<exists>t. yar_print v out = {out @ t}))
   \<and> yar_println v out = (\<lambda>t. t @ [CHR 0x0A]) ` yar_print v out
   \<and> fmt_g (Finite False (5 / 2)) = {''2.5''}
   \<and> fmt_g (Finite True 0) = {''-0''}
   \<and> fmt_g (Finite False 100000) = {''100000''}
   \<and> fmt_g (Finite False 1000000) = {''1e+06''}
   \<and> fmt_g (Finite False (1 / 8192)) = {''0.00012207''}
   \<and> fmt_g (Finite True (1 / 16384)) = {''-6.10352e-05''}
   \<and> fmt_g (Infinity True) = {''-inf''}
   \<and> fmt_g NaN = {''nan'', ''-nan''}"
proof -
  have texts: "fmt_g_magnitude (5 / 2) = ''2.5''"
    "fmt_g_magnitude 0 = ''0''"
    "fmt_g_magnitude 100000 = ''100000''"
    "fmt_g_magnitude 1000000 = ''1e+06''"
    "fmt_g_magnitude (1 / 8192) = ''0.00012207''"
    "fmt_g_magnitude (1 / 16384) = ''6.10352e-05''"
    by code_simp+
  have one: "v \<noteq> VNumber NaN \<longrightarrow> (\<exists>t. yar_print v out = {out @ t})"
  proof (cases v)
    case (VNumber x)
    then show ?thesis
      by (cases x) (simp_all add: yar_print_def fmt_g_def)
  qed (simp_all add: yar_print_def)
  have cases: "yar_print VNil out = {out @ ''nil''}"
    "yar_print (VBool True) out = {out @ ''true''}"
    "yar_print (VBool False) out = {out @ ''false''}"
    "yar_print (VNumber (Finite sg a)) out =
      {out @ (if sg then ''-'' else []) @ fmt_g_magnitude a}"
    "yar_print (VNumber (Infinity sg)) out = {out @ (if sg then ''-inf'' else ''inf'')}"
    "yar_print (VNumber NaN) out = {out @ ''nan'', out @ ''-nan''}"
    "yar_print (VString s) out = {out @ s}"
    "yar_print (VFunction f) out = {out @ ''<function>''}"
    by (simp_all add: yar_print_def fmt_g_def)
  have examples: "fmt_g (Finite False (5 / 2)) = {''2.5''}"
    "fmt_g (Finite True 0) = {''-0''}"
    "fmt_g (Finite False 100000) = {''100000''}"
    "fmt_g (Finite False 1000000) = {''1e+06''}"
    "fmt_g (Finite False (1 / 8192)) = {''0.00012207''}"
    "fmt_g (Finite True (1 / 16384)) = {''-6.10352e-05''}"
    "fmt_g (Infinity True) = {''-inf''}"
    "fmt_g NaN = {''nan'', ''-nan''}"
    by (simp_all add: fmt_g_def texts)
  have line: "yar_println v out = (\<lambda>t. t @ [CHR 0x0A]) ` yar_print v out"
    by (simp add: yar_println_def)
  from cases one line examples show ?thesis
    by (intro conjI)
qed

theorem C9_print_witness:
  "VNumber (Finite False (5 / 2)) \<noteq> VNumber NaN
   \<and> yar_print (VNumber (Finite False (5 / 2))) ''x = '' = {''x = 2.5''}
   \<and> yar_println (VNumber (Finite False (5 / 2))) ''x = '' = {''x = 2.5'' @ [CHR 0x0A]}"
proof -
  have t: "fmt_g_magnitude (5 / 2) = ''2.5''"
    by code_simp
  show ?thesis
    using C9_print [of "''x = ''" False "5 / 2" "[]"
      "\<lparr>ptr = 0, is_native = True, arity = 1\<rparr>" "VNumber (Finite False (5 / 2))"]
    by (simp add: t)
qed

text \<open>
  The claim C9 as the specification states it, a number printed as the shortest decimal
  that reads back as the same double, fails: 1234567, 1234568 and 1234570 are three
  different doubles, and all three are printed as \<open>1.23457e+06\<close>, from which no reader
  can tell them apart; that decimal is 1234570.
\<close>

theorem C9_print_counterexample:
  "is_double (Finite False 1234567) \<and> is_double (Finite False 1234568)
   \<and> is_double (Finite False 1234570)
   \<and> \<not> deq (Finite False 1234567) (Finite False 1234568)
   \<and> \<not> deq (Finite False 1234567) (Finite False 1234570)
   \<and> yar_print (VNumber (Finite False 1234567)) [] = {''1.23457e+06''}
   \<and> yar_print (VNumber (Finite False 1234568)) [] = {''1.23457e+06''}
   \<and> yar_print (VNumber (Finite False 1234570)) [] = {''1.23457e+06''}"
proof -
  have "is_double (Finite False 1234567)" "is_double (Finite False 1234568)"
    "is_double (Finite False 1234570)"
    "fmt_g_magnitude 1234567 = ''1.23457e+06''"
    "fmt_g_magnitude 1234568 = ''1.23457e+06''"
    "fmt_g_magnitude 1234570 = ''1.23457e+06''"
    by code_simp+
  then show ?thesis
    by (simp add: yar_print_def fmt_g_def)
qed

end
